theory Spec2Isabelle
  imports Main "HOL-Library.Multiset" "HOL-Library.Char_ord" "HOL-Library.List_Lexorder"
begin

unbundle bit_operations_syntax

section \<open>Python values used by netv2.py\<close>

text \<open>
  The exceptions that the modelled code can raise. \<open>AssertionError\<close> is what the
  \<^verbatim>\<open>assert\<close> of the constructor raises (the constraint violation of the
  specification); \<open>DuplicateNameError\<close> and \<open>OverlapError\<close> are raised only by the
  collaborators that are modelled from the specification further down.
\<close>

datatype py_error =
    ValueError
  | KeyError
  | NameError
  | AssertionError
  | DuplicateNameError
  | OverlapError

text \<open>
  A Python \<^verbatim>\<open>dict\<close> with string keys: an association list in insertion order.
  Storing under a key that is present replaces the value in place; storing under a
  new key appends.
\<close>

type_synonym 'v dict = "(string \<times> 'v) list"

fun dict_set :: "'v dict \<Rightarrow> string \<Rightarrow> 'v \<Rightarrow> 'v dict" where
  "dict_set [] k v = [(k, v)]"
| "dict_set ((k', v') # d) k v =
     (if k' = k then (k, v) # d else (k', v') # dict_set d k v)"

text \<open>\<^verbatim>\<open>d.update(pairs)\<close>: the pairs are stored one after the other.\<close>

definition dict_update :: "'v dict \<Rightarrow> (string \<times> 'v) list \<Rightarrow> 'v dict" where
  "dict_update d ps = foldl (\<lambda>acc (k, v). dict_set acc k v) d ps"

text \<open>\<^verbatim>\<open>dict(pairs)\<close>: a fresh dictionary filled from the pairs.\<close>

definition dict_of_pairs :: "(string \<times> 'v) list \<Rightarrow> 'v dict" where
  "dict_of_pairs ps = dict_update [] ps"

definition dict_values :: "'v dict \<Rightarrow> 'v list" where
  "dict_values d = map snd d"

definition dict_keys :: "'v dict \<Rightarrow> string list" where
  "dict_keys d = map fst d"

text \<open>\<^verbatim>\<open>max(xs)\<close> raises \<^verbatim>\<open>ValueError\<close> on an empty sequence.\<close>

fun py_max :: "int list \<Rightarrow> py_error + int" where
  "py_max [] = Inl ValueError"
| "py_max (x # xs) = Inr (foldl max x xs)"

text \<open>\<^verbatim>\<open>enumerate(xs, start=s)\<close>.\<close>

fun enumerate_from :: "int \<Rightarrow> 'a list \<Rightarrow> (int \<times> 'a) list" where
  "enumerate_from s [] = []"
| "enumerate_from s (x # xs) = (s, x) # enumerate_from (s + 1) xs"

section \<open>The register-window allocator: \<open>csr_map_update\<close>\<close>

text \<open>
  \<^verbatim>\<open>
  def csr_map_update(csr_map, csr_peripherals):
      csr_map.update(dict((n, v)
          for v, n in enumerate(csr_peripherals, start=max(csr_map.values()) + 1)))
  \<close>
  The argument of \<^verbatim>\<open>enumerate\<close> is evaluated before anything is stored, so an empty
  \<^verbatim>\<open>csr_map\<close> raises \<^verbatim>\<open>ValueError\<close> and leaves the map as it was. The model returns
  the updated map where the source mutates it.
\<close>

text \<open>The generator expression: the pairs \<open>(n, v)\<close> for \<open>v, n\<close> in the enumeration.\<close>

definition name_ordinal_pairs :: "int \<Rightarrow> string list \<Rightarrow> (string \<times> int) list" where
  "name_ordinal_pairs start names = map (\<lambda>(v, n). (n, v)) (enumerate_from start names)"

definition csr_map_update :: "int dict \<Rightarrow> string list \<Rightarrow> py_error + int dict" where
  "csr_map_update csr_map csr_peripherals =
     (case py_max (dict_values csr_map) of
        Inl e \<Rightarrow> Inl e
      | Inr m \<Rightarrow>
          Inr (dict_update csr_map
                 (dict_of_pairs (name_ordinal_pairs (m + 1) csr_peripherals))))"

text \<open>The class attribute \<^verbatim>\<open>NeTV2SoC.csr_peripherals\<close>.\<close>

definition csr_peripherals :: "string list" where
  "csr_peripherals =
     [''crg'', ''dna'', ''xadc'', ''flash'', ''icap'',
      ''ddrphy'',
      ''ethphy'', ''ethmac'',
      ''pcie_phy'', ''pcie_dma0'', ''pcie_dma1'', ''pcie_msi'',
      ''hdmi_out0'', ''hdmi_in0'', ''hdmi_in0_freq'', ''hdmi_in0_edid_mem'']"

text \<open>
  \<^verbatim>\<open>csr_map_update(SoCSDRAM.csr_map, csr_peripherals)\<close> in the class body. The parent's
  map \<^verbatim>\<open>SoCSDRAM.csr_map\<close> comes from a library outside the repository and is a
  parameter.
\<close>

definition NeTV2SoC_csr_map :: "int dict \<Rightarrow> py_error + int dict" where
  "NeTV2SoC_csr_map SoCSDRAM_csr_map = csr_map_update SoCSDRAM_csr_map csr_peripherals"

text \<open>
  \<^verbatim>\<open>
  interrupt_map = {"ethmac": 3}
  interrupt_map.update(SoCSDRAM.interrupt_map)
  mem_map = {"ethmac": 0x30000000}
  mem_map.update(SoCSDRAM.mem_map)
  \<close>
\<close>

definition interrupt_map :: "int dict \<Rightarrow> int dict" where
  "interrupt_map SoCSDRAM_interrupt_map =
     dict_update [(''ethmac'', 3)] SoCSDRAM_interrupt_map"

definition mem_map :: "int dict \<Rightarrow> int dict" where
  "mem_map SoCSDRAM_mem_map =
     dict_update [(''ethmac'', 0x30000000)] SoCSDRAM_mem_map"

section \<open>The constructor \<open>NeTV2SoC.__init__\<close>\<close>

text \<open>
  The keyword arguments of the constructor, and their defaults.
\<close>

record flags =
  with_sdram :: bool
  with_ethernet :: bool
  with_etherbone :: bool
  with_pcie :: bool
  with_hdmi_in0 :: bool
  with_hdmi_out0 :: bool

definition default_flags :: flags where
  "default_flags =
     \<lparr>with_sdram = True, with_ethernet = False, with_etherbone = True,
      with_pcie = False, with_hdmi_in0 = True, with_hdmi_out0 = True\<rparr>"

text \<open>
  What the constructor leaves on the object: the calls it makes to its collaborators
  (the parent class, the platform and the cores, all outside the repository), recorded
  in the order in which they are made. The collaborators' own work is not modelled, and
  a call to one of them is taken to return.
\<close>

record soc =
  submodules :: "string list"
  wb_slaves :: "string list"
  wb_masters :: "string list"
  memory_regions :: "(string \<times> int \<times> int) list"
  false_paths :: "(string \<times> string) list"
  period_constraints :: "string list"
  constants :: "(string \<times> int) list"
  msi_irqs :: "(int \<times> string) list"

definition empty_soc :: soc where
  "empty_soc =
     \<lparr>submodules = [], wb_slaves = [], wb_masters = [], memory_regions = [],
      false_paths = [], period_constraints = [], constants = [], msi_irqs = []\<rparr>"

text \<open>
  What the constructor reads from outside its own body: the names that resolve in the
  module's global scope (filled by the star imports; a name that is not there raises
  \<^verbatim>\<open>NameError\<close> when it is read), the parent's memory map and \<^verbatim>\<open>self.shadow_base\<close>.
\<close>

record environment =
  globals :: "string \<rightharpoonup> bool"
  SoCSDRAM_mem_map :: "int dict"
  shadow_base :: int

text \<open>
  A statement either raises, leaving the object as it is at that point, or returns the
  updated object.
\<close>

type_synonym step = "soc \<Rightarrow> (py_error \<times> soc) + soc"

fun run :: "step list \<Rightarrow> step" where
  "run [] s = Inr s"
| "run (f # fs) s = (case f s of Inl e \<Rightarrow> Inl e | Inr s' \<Rightarrow> run fs s')"

text \<open>\<^verbatim>\<open>if flag: body\<close>, for a flag that is an argument of the constructor.\<close>

definition when_flag :: "bool \<Rightarrow> step list \<Rightarrow> step" where
  "when_flag b body s = (if b then run body s else Inr s)"

text \<open>\<^verbatim>\<open>if name: body\<close>, for a name that is not local to the constructor.\<close>

definition when_name :: "(string \<rightharpoonup> bool) \<Rightarrow> string \<Rightarrow> step list \<Rightarrow> step" where
  "when_name g n body s =
     (case g n of
        None \<Rightarrow> Inl (NameError, s)
      | Some b \<Rightarrow> if b then run body s else Inr s)"

text \<open>
  \<^verbatim>\<open>assert not (with_pcie and with_interboard_communication)\<close>: the second operand is
  read only when the first is true. The interpreter is taken to run with assertions
  enabled.
\<close>

definition assert_not_pcie_and_interboard :: "(string \<rightharpoonup> bool) \<Rightarrow> bool \<Rightarrow> step" where
  "assert_not_pcie_and_interboard g pcie s =
     (if pcie then
        (case g ''with_interboard_communication'' of
           None \<Rightarrow> Inl (NameError, s)
         | Some b \<Rightarrow> if b then Inl (AssertionError, s) else Inr s)
      else Inr s)"

definition add_submodule :: "string \<Rightarrow> step" where
  "add_submodule n s = Inr (s\<lparr>submodules := submodules s @ [n]\<rparr>)"

definition add_wb_slave :: "string \<Rightarrow> step" where
  "add_wb_slave n s = Inr (s\<lparr>wb_slaves := wb_slaves s @ [n]\<rparr>)"

definition add_wb_master :: "string \<Rightarrow> step" where
  "add_wb_master n s = Inr (s\<lparr>wb_masters := wb_masters s @ [n]\<rparr>)"

definition add_memory_region :: "string \<Rightarrow> int \<Rightarrow> int \<Rightarrow> step" where
  "add_memory_region n origin len s =
     Inr (s\<lparr>memory_regions := memory_regions s @ [(n, origin, len)]\<rparr>)"

definition add_false_path_constraints :: "string \<Rightarrow> string \<Rightarrow> step" where
  "add_false_path_constraints a b s = Inr (s\<lparr>false_paths := false_paths s @ [(a, b)]\<rparr>)"

definition add_period_constraint :: "string \<Rightarrow> step" where
  "add_period_constraint c s = Inr (s\<lparr>period_constraints := period_constraints s @ [c]\<rparr>)"

text \<open>
  \<^verbatim>\<open>CRG.__init__\<close>: of its statements only
  \<^verbatim>\<open>platform.add_period_constraint(clk50, 1e9/50e6)\<close> reaches the platform; the clock
  domains and the PLL stay inside the module.
\<close>

definition CRG_init :: step where
  "CRG_init = add_period_constraint ''clk50''"

text \<open>
  \<^verbatim>\<open>
  self.interrupts = {
      "PCIE_DMA0_WRITER":    self.pcie_dma0.writer.irq,
      "PCIE_DMA0_READER":    self.pcie_dma0.reader.irq
  }
  for i, (k, v) in enumerate(sorted(self.interrupts.items())):
      self.comb += self.pcie_msi.irqs[i].eq(v)
      self.add_constant(k + "_INTERRUPT", i)
  \<close>
  The keys of a dictionary differ, so sorting its items compares keys only.
\<close>

definition pcie_interrupts :: "string dict" where
  "pcie_interrupts =
     [(''PCIE_DMA0_WRITER'', ''pcie_dma0.writer.irq''),
      (''PCIE_DMA0_READER'', ''pcie_dma0.reader.irq'')]"

definition add_interrupt_constants :: "string dict \<Rightarrow> step" where
  "add_interrupt_constants items s =
     (let numbered = enumerate_from 0 (sort_key fst items)
      in Inr (s\<lparr>constants := constants s @ map (\<lambda>(i, (k, v)). (k @ ''_INTERRUPT'', i)) numbered,
               msi_irqs := msi_irqs s @ map (\<lambda>(i, (k, v)). (i, v)) numbered\<rparr>))"

text \<open>
  \<^verbatim>\<open>
  self.add_wb_slave(mem_decoder(self.mem_map["ethmac"]), self.ethmac.bus)
  self.add_memory_region("ethmac", self.mem_map["ethmac"] | self.shadow_base, 0x2000)
  \<close>
  Reading a key that the dictionary lacks raises \<^verbatim>\<open>KeyError\<close>.
\<close>

definition ethmac_bus_and_region :: "environment \<Rightarrow> step" where
  "ethmac_bus_and_region env s =
     (case map_of (mem_map (SoCSDRAM_mem_map env)) ''ethmac'' of
        None \<Rightarrow> Inl (KeyError, s)
      | Some a \<Rightarrow>
          run [add_wb_slave ''ethmac'',
               add_memory_region ''ethmac'' (a OR shadow_base env) 0x2000] s)"

text \<open>
  The constructor, statement by statement. Statements that only add logic to
  \<^verbatim>\<open>self.comb\<close> or \<^verbatim>\<open>self.sync\<close> (the two LED counters at the end among them) leave
  the record as it is and are left out. Clock domains are named by their domain:
  \<^verbatim>\<open>self.crg.cd_sys.clk\<close> is \<open>''sys''\<close>.
\<close>

definition NeTV2SoC_init :: "environment \<Rightarrow> flags \<Rightarrow> (py_error \<times> soc) + soc" where
  "NeTV2SoC_init env f =
     run [
       assert_not_pcie_and_interboard (globals env) (with_pcie f),
       CRG_init,
       add_submodule ''crg'',
       add_submodule ''dna'',
       add_submodule ''xadc'',
       add_submodule ''icap'',
       add_submodule ''flash'',
       when_flag (with_sdram f) [
         add_submodule ''ddrphy''],
       when_flag (with_ethernet f) [
         add_submodule ''ethphy'',
         add_submodule ''ethmac'',
         ethmac_bus_and_region env,
         add_false_path_constraints ''sys'' ''eth''],
       when_flag (with_etherbone f) [
         add_submodule ''ethphy'',
         add_submodule ''ethcore'',
         add_submodule ''etherbone'',
         add_wb_master ''etherbone'',
         add_false_path_constraints ''sys'' ''eth''],
       when_flag (with_pcie f) [
         add_submodule ''pcie_phy'',
         add_false_path_constraints ''sys'' ''pcie'',
         add_submodule ''pcie_endpoint'',
         add_submodule ''pcie_bridge'',
         add_wb_master ''pcie_bridge'',
         add_submodule ''pcie_dma0'',
         add_submodule ''pcie_msi'',
         add_interrupt_constants pcie_interrupts],
       when_flag (with_hdmi_in0 f) [
         add_submodule ''hdmi_in0_freq'',
         add_submodule ''hdmi_in0'',
         add_false_path_constraints ''sys'' ''hdmi_in0_pix'',
         add_false_path_constraints ''sys'' ''hdmi_in0_pix1p25x'',
         add_false_path_constraints ''sys'' ''hdmi_in0_pix5x'',
         add_period_constraint ''hdmi_in0''],
       when_flag (with_hdmi_out0 f) [
         add_submodule ''hdmi_out0'',
         add_false_path_constraints ''sys'' ''hdmi_out0_pix'',
         add_false_path_constraints ''sys'' ''hdmi_out0_pix5x''],
       when_name (globals env) ''with_hdmi_in1'' [
         add_submodule ''hdmi_in1_freq'',
         add_submodule ''hdmi_in1'',
         add_false_path_constraints ''sys'' ''hdmi_in1_pix'',
         add_false_path_constraints ''sys'' ''hdmi_in1_pix1p25x'',
         add_false_path_constraints ''sys'' ''hdmi_in1_pix5x'',
         add_period_constraint ''hdmi_in1''],
       when_name (globals env) ''with_hdmi_out1'' [
         add_submodule ''hdmi_out1'',
         add_false_path_constraints ''sys'' ''hdmi_out1_pix'',
         add_false_path_constraints ''sys'' ''hdmi_out1_pix5x'']
     ] empty_soc"




section \<open>Collaborators described by the specification only\<close>

text \<open>
  The registry of peripherals, the check of memory regions and the set of clock-domain
  crossings are kept by the libraries the constructor calls. Their code is not in the
  repository; the definitions of this section follow the specification.
\<close>

record peripheral_spec =
  spec_name :: string
  spec_enabled :: bool
  wants_register_window :: bool
  wants_interrupt :: bool
  memory_request :: "(int \<times> int) option"

type_synonym registry = "peripheral_spec list"


text \<open>
  Modelled from the spec: \<open>enabled_specs\<close> of the Peripheral Registry, in registration
  order.
\<close>

definition enabled_specs :: "registry \<Rightarrow> peripheral_spec list" where
  "enabled_specs reg = filter spec_enabled reg"

record memory_region =
  region_name :: string
  base_address :: int
  region_size :: int
  shadow_flag :: bool

text \<open>The addresses of a region: \<open>region_size\<close> of them, from \<open>base_address\<close> on.\<close>

definition addresses :: "memory_region \<Rightarrow> int set" where
  "addresses r = {base_address r ..< base_address r + region_size r}"

text \<open>
  Modelled from the spec: the overlap check on memory regions (the code of
  \<^verbatim>\<open>add_memory_region\<close> is not in the sources). A region may not overlap a region
  registered before it; the allocation fails with \<open>OverlapError\<close> otherwise.
\<close>

definition regions_overlap :: "memory_region \<Rightarrow> memory_region \<Rightarrow> bool" where
  "regions_overlap r1 r2 \<longleftrightarrow>
     base_address r1 < base_address r2 + region_size r2 \<and>
     base_address r2 < base_address r1 + region_size r1 \<and>
     0 < region_size r1 \<and> 0 < region_size r2"

definition allocate_region ::
  "memory_region \<Rightarrow> memory_region list \<Rightarrow> py_error + memory_region list" where
  "allocate_region r regs =
     (if list_ex (regions_overlap r) regs then Inl OverlapError else Inr (regs @ [r]))"

text \<open>
  Modelled from the spec: the Clock-Domain Relationship Tracker (the code behind
  \<^verbatim>\<open>add_false_path_constraints\<close> is not in the sources). An edge is an unordered pair
  of domains; \<open>declare_crossing\<close> is an idempotent insert into the edge set.
\<close>

type_synonym clock_domain_edge = "string set"

type_synonym tracker = "clock_domain_edge set"

definition declare_crossing :: "string \<Rightarrow> string \<Rightarrow> tracker \<Rightarrow> tracker" where
  "declare_crossing domain_a domain_b t = insert {domain_a, domain_b} t"

definition edges :: "tracker \<Rightarrow> clock_domain_edge set" where
  "edges t = t"

text \<open>The crossings that the constructor declared, passed to the tracker in order.\<close>

definition declared_crossings :: "soc \<Rightarrow> tracker" where
  "declared_crossings s = foldl (\<lambda>t (a, b). declare_crossing a b t) {} (false_paths s)"

section \<open>Dictionaries and enumeration\<close>

lemma map_of_dict_set: "map_of (dict_set d k v) = (map_of d)(k \<mapsto> v)"
  by (induction d k v rule: dict_set.induct) auto

lemma map_of_dict_update: "map_of (dict_update d ps) = map_of d ++ map_of (rev ps)"
  unfolding dict_update_def
proof (induction ps arbitrary: d)
  case Nil then show ?case by simp
next
  case (Cons p ps)
  obtain k v where p: "p = (k, v)" by (cases p)
  show ?case using Cons[of "dict_set d k v"]
    by (simp add: p map_of_dict_set map_add_upd_left fun_eq_iff map_add_def split: option.splits)
qed

lemma keys_dict_set:
  "map fst (dict_set d k v) = (if k \<in> set (map fst d) then map fst d else map fst d @ [k])"
  by (induction d k v rule: dict_set.induct) auto

lemma distinct_keys_dict_set: "distinct (map fst d) \<Longrightarrow> distinct (map fst (dict_set d k v))"
  by (simp add: keys_dict_set)

lemma distinct_keys_dict_update: "distinct (map fst d) \<Longrightarrow> distinct (map fst (dict_update d ps))"
  unfolding dict_update_def
  by (induction ps arbitrary: d) (auto simp: distinct_keys_dict_set split: prod.splits)

lemma foldl_max_ge: "x \<le> foldl max (x::int) xs \<and> (\<forall>y\<in>set xs. y \<le> foldl max x xs)"
  by (induction xs arbitrary: x) (auto simp: max_def, force+)

lemma py_max_ge: "py_max xs = Inr m \<Longrightarrow> y \<in> set xs \<Longrightarrow> y \<le> m"
  using foldl_max_ge by (cases xs) auto

lemma py_max_nonempty: "xs \<noteq> [] \<Longrightarrow> \<exists>m. py_max xs = Inr m"
  by (cases xs) auto

lemma in_enumerate_from:
  "(v, n) \<in> set (enumerate_from s ps) \<longleftrightarrow> s \<le> v \<and> v < s + int (length ps) \<and> n = ps ! nat (v - s)"
proof (induction ps arbitrary: s)
  case Nil then show ?case by auto
next
  case (Cons p ps)
  have step: "(p # ps) ! nat (v - s) = ps ! nat (v - (s + 1))" if "s + 1 \<le> v"
  proof -
    have "nat (v - s) = Suc (nat (v - (s + 1)))" using that by linarith
    then show ?thesis by simp
  qed
  show ?case
  proof (cases "v = s")
    case True
    then show ?thesis using Cons[of "s + 1"] by auto
  next
    case False
    then show ?thesis using Cons[of "s + 1"] step by auto
  qed
qed

lemma map_snd_enumerate_from: "map snd (enumerate_from s ps) = ps"
  by (induction ps arbitrary: s) auto

lemma distinct_fst_enumerate_from: "distinct (map fst (enumerate_from s ps))"
proof (induction ps arbitrary: s)
  case Nil then show ?case by simp
next
  case (Cons p ps)
  have "s \<notin> fst ` set (enumerate_from (s + 1) ps)"
    by (auto simp: in_enumerate_from)
  then show ?case using Cons by simp
qed


lemma in_name_ordinal_pairs:
  "(n, v) \<in> set (name_ordinal_pairs s ps) \<longleftrightarrow> s \<le> v \<and> v < s + int (length ps) \<and> n = ps ! nat (v - s)"
  unfolding name_ordinal_pairs_def using in_enumerate_from[of v n s ps] by force

lemma keys_name_ordinal_pairs: "map fst (name_ordinal_pairs s ps) = ps"
  unfolding name_ordinal_pairs_def using map_snd_enumerate_from[of s ps]
  by (simp add: case_prod_unfold comp_def)

lemma map_of_rev_name_ordinal_pairs_None: "n \<notin> set ps \<Longrightarrow> map_of (rev (name_ordinal_pairs s ps)) n = None"
  by (simp add: map_of_eq_None_iff keys_name_ordinal_pairs image_image flip: set_map)

lemma map_of_rev_name_ordinal_pairs_Some:
  assumes "n \<in> set ps"
  shows "\<exists>v. map_of (rev (name_ordinal_pairs s ps)) n = Some v \<and> (n, v) \<in> set (name_ordinal_pairs s ps)"
proof -
  have "n \<in> fst ` set (rev (name_ordinal_pairs s ps))"
    using assms keys_name_ordinal_pairs[of s ps] by (metis set_map set_rev)
  then obtain v where "map_of (rev (name_ordinal_pairs s ps)) n = Some v"
    by (meson domD domI map_of_eq_None_iff not_None_eq)
  moreover from this have "(n, v) \<in> set (name_ordinal_pairs s ps)"
    using map_of_SomeD by fastforce
  ultimately show ?thesis by blast
qed

lemma map_of_dict_of_pairs: "map_of (dict_of_pairs ps) = map_of (rev ps)"
  by (simp add: dict_of_pairs_def map_of_dict_update)

lemma distinct_keys_dict_of_pairs: "distinct (map fst (dict_of_pairs ps))"
  by (simp add: dict_of_pairs_def distinct_keys_dict_update)

lemma map_of_rev_distinct: "distinct (map fst xs) \<Longrightarrow> map_of (rev xs) = map_of xs"
  by (simp add: distinct_map map_of_inject_set)

lemma csr_map_update_lookup:
  assumes "csr_map_update csr_map ps = Inr d'"
  shows "\<exists>m. py_max (dict_values csr_map) = Inr m \<and>
             map_of d' = map_of csr_map ++ map_of (rev (name_ordinal_pairs (m + 1) ps))"
proof -
  from assms obtain m where m: "py_max (dict_values csr_map) = Inr m"
    and d': "d' = dict_update csr_map (dict_of_pairs (name_ordinal_pairs (m + 1) ps))"
    by (auto simp: csr_map_update_def split: sum.splits)
  have "map_of (rev (dict_of_pairs (name_ordinal_pairs (m + 1) ps)))
          = map_of (rev (name_ordinal_pairs (m + 1) ps))"
    by (simp add: map_of_rev_distinct distinct_keys_dict_of_pairs map_of_dict_of_pairs)
  then show ?thesis using m d' by (simp add: map_of_dict_update)
qed

lemma csr_map_update_empty: "csr_map_update [] ps = Inl ValueError"
  by (simp add: csr_map_update_def dict_values_def)

lemma csr_map_update_nonempty:
  "csr_map \<noteq> [] \<Longrightarrow> \<exists>d'. csr_map_update csr_map ps = Inr d'"
  by (cases csr_map) (auto simp: csr_map_update_def dict_values_def)

lemma csr_map_update_kept:
  assumes "csr_map_update csr_map ps = Inr d'" "n \<notin> set ps"
  shows "map_of d' n = map_of csr_map n"
  using csr_map_update_lookup[OF assms(1)] map_of_rev_name_ordinal_pairs_None[OF assms(2)]
  by (auto simp: map_add_def)

lemma csr_map_update_fresh:
  assumes "csr_map_update csr_map ps = Inr d'" "n \<in> set ps"
  shows "\<exists>m v. py_max (dict_values csr_map) = Inr m \<and> map_of d' n = Some v \<and> m < v
            \<and> v \<le> m + int (length ps) \<and> n = ps ! nat (v - (m + 1))"
proof -
  from csr_map_update_lookup[OF assms(1)] obtain m where m: "py_max (dict_values csr_map) = Inr m"
    and l: "map_of d' = map_of csr_map ++ map_of (rev (name_ordinal_pairs (m + 1) ps))" by blast
  from map_of_rev_name_ordinal_pairs_Some[OF assms(2), of "m + 1"] obtain v where
    v: "map_of (rev (name_ordinal_pairs (m + 1) ps)) n = Some v" "(n, v) \<in> set (name_ordinal_pairs (m + 1) ps)"
    by blast
  from v(2) have "m + 1 \<le> v" "v < m + 1 + int (length ps)" "n = ps ! nat (v - (m + 1))"
    by (simp_all add: in_name_ordinal_pairs)
  then show ?thesis using m l v(1) by (auto simp: map_add_def)
qed

lemma dict_set_new: "k \<notin> set (map fst d) \<Longrightarrow> dict_set d k v = d @ [(k, v)]"
  by (induction d k v rule: dict_set.induct) auto

lemma csr_map_update_single:
  assumes "py_max (dict_values csr_map) = Inr m" "n \<notin> set (dict_keys csr_map)"
  shows "csr_map_update csr_map [n] = Inr (csr_map @ [(n, m + 1)])"
  using assms
  by (simp add: csr_map_update_def dict_of_pairs_def dict_update_def name_ordinal_pairs_def
      dict_set_new dict_keys_def)

lemma values_inj_if_distinct:
  assumes "distinct (map snd d)" "map_of d k1 = Some v" "map_of d k2 = Some v"
  shows "k1 = k2"
proof -
  have "(k1, v) \<in> set d" "(k2, v) \<in> set d"
    using assms(2,3) by (auto dest: map_of_SomeD)
  moreover have "inj_on snd (set d)" using assms(1) by (simp add: distinct_map)
  ultimately have "(k1, v) = (k2, v)" by (intro inj_onD[of snd "set d"]) simp_all
  then show ?thesis by simp
qed

lemma distinct_values_if_inj:
  assumes "distinct (map fst d)"
    and "\<And>k1 k2 v. map_of d k1 = Some v \<Longrightarrow> map_of d k2 = Some v \<Longrightarrow> k1 = k2"
  shows "distinct (map snd d)"
  using assms
proof (induction d)
  case Nil then show ?case by simp
next
  case (Cons p d)
  obtain k v where p: "p = (k, v)" by (cases p)
  from Cons.prems(1) have kd: "k \<notin> fst ` set d" and dd: "distinct (map fst d)" by (auto simp: p)
  have inj: "k1 = k2" if "map_of (p # d) k1 = Some u" "map_of (p # d) k2 = Some u" for k1 k2 u
    using Cons.prems(2) that by blast
  have "v \<notin> snd ` set d"
  proof
    assume "v \<in> snd ` set d"
    then obtain k' where k': "(k', v) \<in> set d" by force
    then have "map_of d k' = Some v" using dd by simp
    moreover have "k' \<noteq> k" using k' kd by force
    ultimately have "map_of (p # d) k' = Some v" by (simp add: p)
    moreover have "map_of (p # d) k = Some v" by (simp add: p)
    ultimately have "k' = k" by (rule inj)
    with \<open>k' \<noteq> k\<close> show False by simp
  qed
  moreover have "distinct (map snd d)"
  proof (rule Cons.IH[OF dd])
    fix k1 k2 u assume a: "map_of d k1 = Some u" "map_of d k2 = Some u"
    then have "k1 \<noteq> k" "k2 \<noteq> k" using kd by (auto dest!: map_of_SomeD simp: rev_image_eqI)
    then have "map_of (p # d) k1 = Some u" "map_of (p # d) k2 = Some u" using a by (simp_all add: p)
    then show "k1 = k2" by (rule inj)
  qed
  ultimately show ?case by (simp add: p)
qed

lemma distinct_keys_csr_map_update:
  assumes "csr_map_update csr_map ps = Inr d'" "distinct (map fst csr_map)"
  shows "distinct (map fst d')"
  using assms by (auto simp: csr_map_update_def distinct_keys_dict_update split: sum.splits)

lemma csr_map_update_inj:
  assumes upd: "csr_map_update csr_map ps = Inr d'"
    and dv: "distinct (map snd csr_map)"
    and l1: "map_of d' k1 = Some v" and l2: "map_of d' k2 = Some v"
  shows "k1 = k2"
proof -
  from csr_map_update_lookup[OF upd] obtain m where m: "py_max (dict_values csr_map) = Inr m" by blast
  have old_le: "u \<le> m" if "map_of csr_map k = Some u" for k u
  proof -
    from that have "u \<in> set (dict_values csr_map)"
      by (force dest: map_of_SomeD simp: dict_values_def)
    then show ?thesis using py_max_ge[OF m] by blast
  qed
  have new: "m < v \<and> k = ps ! nat (v - (m + 1))" if "k \<in> set ps" "map_of d' k = Some v" for k
    using csr_map_update_fresh[OF upd that(1)] that(2) m by auto
  have old: "map_of csr_map k = Some v \<and> v \<le> m" if "k \<notin> set ps" "map_of d' k = Some v" for k
    using csr_map_update_kept[OF upd that(1)] that(2) old_le by auto
  show ?thesis
  proof (cases "k1 \<in> set ps")
    case True
    with new l1 have a: "m < v" "k1 = ps ! nat (v - (m + 1))" by auto
    with old l2 have "k2 \<in> set ps" by force
    with new l2 a show ?thesis by auto
  next
    case False
    with old l1 have a: "map_of csr_map k1 = Some v" "v \<le> m" by auto
    with new l2 have "k2 \<notin> set ps" by force
    with old l2 have "map_of csr_map k2 = Some v" by auto
    with a dv show ?thesis by (auto intro: values_inj_if_distinct)
  qed
qed

lemma csr_map_update_position:
  assumes upd: "csr_map_update csr_map ps = Inr d'" and m: "py_max (dict_values csr_map) = Inr m"
    and "distinct ps" "i < length ps"
  shows "map_of d' (ps ! i) = Some (m + 1 + int i)"
proof -
  from csr_map_update_fresh[OF upd, of "ps ! i"] assms(4) m obtain v where
    v: "map_of d' (ps ! i) = Some v" "m < v" "v \<le> m + int (length ps)" "ps ! i = ps ! nat (v - (m + 1))"
    by auto
  have "nat (v - (m + 1)) < length ps" using v(2,3) by linarith
  with v(4) assms(3,4) have "i = nat (v - (m + 1))" by (simp add: nth_eq_iff_index_eq)
  then have "v = m + 1 + int i" using v(2) by linarith
  with v(1) show ?thesis by simp
qed

lemma map_of_literal_update:
  assumes "distinct (map fst base)"
  shows "map_of (dict_update [(k, v)] base) n =
           (case map_of base n of Some u \<Rightarrow> Some u | None \<Rightarrow> if n = k then Some v else None)"
  using assms by (simp add: map_of_dict_update map_of_rev_distinct map_add_def split: option.splits)

lemma literal_update_distinct_values:
  assumes dk: "distinct (map fst base)" and dv: "distinct (map snd base)"
    and fresh: "v \<notin> set (map snd base)"
  shows "distinct (map snd (dict_update [(k, v)] base))"
proof (rule distinct_values_if_inj)
  show "distinct (map fst (dict_update [(k, v)] base))"
    by (simp add: distinct_keys_dict_update)
next
  fix k1 k2 u
  assume a: "map_of (dict_update [(k, v)] base) k1 = Some u"
            "map_of (dict_update [(k, v)] base) k2 = Some u"
  have not_v: "u' \<noteq> v" if "map_of base k' = Some u'" for k' u'
    using that fresh by (force dest: map_of_SomeD)
  from a show "k1 = k2"
    unfolding map_of_literal_update[OF dk]
    by (auto split: option.splits if_splits dest: not_v values_inj_if_distinct[OF dv])
qed

section \<open>The constructor\<close>

lemmas step_defs = when_flag_def when_name_def assert_not_pcie_and_interboard_def
  add_submodule_def add_wb_slave_def add_wb_master_def add_memory_region_def
  add_false_path_constraints_def add_period_constraint_def add_interrupt_constants_def
  CRG_init_def

lemma mem_map_has_ethmac: "\<exists>a. map_of (mem_map b) ''ethmac'' = Some a"
  by (simp add: mem_map_def map_of_dict_update map_add_def split: option.splits)



lemma NeTV2SoC_init_no_pcie_no_AssertionError:
  assumes "\<not> with_pcie f"
  shows "NeTV2SoC_init env f \<noteq> Inl (AssertionError, s)"
proof -
  from mem_map_has_ethmac obtain a where
    a: "map_of (mem_map (SoCSDRAM_mem_map env)) ''ethmac'' = Some a" by blast
  show ?thesis using assms a
    by (simp add: NeTV2SoC_init_def step_defs ethmac_bus_and_region_def empty_soc_def
        split: option.splits)
qed

section \<open>Sorting the items of a dictionary\<close>

lemma filter_same_key:
  assumes "distinct (map fst l)" "k \<in> set l"
  shows "filter (\<lambda>x. fst k = fst x) l = [k]"
  using assms
proof (induction l)
  case Nil then show ?case by simp
next
  case (Cons p l)
  show ?case
  proof (cases "k = p")
    case True
    have "filter (\<lambda>x. fst p = fst x) l = []"
      using Cons.prems(1) by (auto simp: filter_empty_conv)
    with True show ?thesis by simp
  next
    case False
    with Cons.prems have kl: "k \<in> set l" and d: "distinct (map fst l)" by auto
    have "fst k \<in> fst ` set l" using kl by simp
    moreover have "fst p \<notin> fst ` set l" using Cons.prems(1) by simp
    ultimately have "fst k \<noteq> fst p" by metis
    with Cons.IH[OF d kl] show ?thesis by simp
  qed
qed

lemma sort_key_fst_perm:
  fixes xs ys :: "('k::linorder \<times> 'v) list"
  assumes "mset ys = mset xs" "distinct (map fst xs)"
  shows "sort_key fst ys = sort_key fst xs"
proof (rule properties_for_sort_key)
  show "mset (sort_key fst xs) = mset ys" using assms(1) by simp
next
  have dy: "distinct (map fst ys)"
    using assms by (metis distinct_map mset_eq_setD mset_map distinct_count_atmost_1 mset_eq_imp_distinct_iff)
  fix k assume "k \<in> set (sort_key fst xs)"
  then have kx: "k \<in> set xs" by simp
  then have ky: "k \<in> set ys" using assms(1) by (metis mset_eq_setD)
  have ds: "distinct (map fst (sort_key fst xs))"
    using assms(2) by (metis distinct_map mset_sort mset_map mset_eq_imp_distinct_iff)
  show "filter (\<lambda>x. fst k = fst x) (sort_key fst xs) = filter (\<lambda>x. fst k = fst x) ys"
    using filter_same_key[OF ds] filter_same_key[OF dy ky] kx by simp
next
  show "sorted (map fst (sort_key fst xs))" by simp
qed

section \<open>Memory regions\<close>

lemma regions_overlap_iff: "regions_overlap r1 r2 \<longleftrightarrow> addresses r1 \<inter> addresses r2 \<noteq> {}"
proof
  assume o: "regions_overlap r1 r2"
  then have "max (base_address r1) (base_address r2) \<in> addresses r1 \<inter> addresses r2"
    by (auto simp: regions_overlap_def addresses_def max_def)
  then show "addresses r1 \<inter> addresses r2 \<noteq> {}" by blast
next
  assume "addresses r1 \<inter> addresses r2 \<noteq> {}"
  then obtain a where "a \<in> addresses r1" "a \<in> addresses r2" by blast
  then show "regions_overlap r1 r2"
    by (auto simp: regions_overlap_def addresses_def)
qed

lemma allocate_region_disjoint:
  assumes "list_all (\<lambda>r'. addresses r \<inter> addresses r' = {}) regs"
  shows "allocate_region r regs = Inr (regs @ [r])"
  using assms by (auto simp: allocate_region_def list_ex_iff list_all_iff regions_overlap_iff)

lemmas dict_eval = csr_map_update_def dict_values_def dict_keys_def dict_update_def
  dict_of_pairs_def name_ordinal_pairs_def interrupt_map_def mem_map_def

section \<open>Claims about the allocator\<close>

text \<open>
  Claim C1, as amended. \<open>csr_map_update\<close> has no starting ordinal: on an empty map it
  raises \<open>ValueError\<close> and allocates nothing. On a map that is not empty it returns, and
  every name of the list gets an ordinal strictly greater than every ordinal that the map
  held before the call; the names that are not in the list keep what they had; and one
  name that is new to the map is appended with the ordinal one above the maximum, the
  earlier entries unchanged (a map holding 0, 1, 2 gives the new name 3).
\<close>

theorem csr_map_update_ordinals:
  "(csr_map = [] \<longrightarrow> csr_map_update csr_map ps = Inl ValueError) \<and>
   (csr_map \<noteq> [] \<longrightarrow>
      (\<exists>m d'. py_max (dict_values csr_map) = Inr m \<and> csr_map_update csr_map ps = Inr d' \<and>
         (\<forall>n\<in>set ps. \<exists>v. map_of d' n = Some v \<and> (\<forall>u\<in>set (dict_values csr_map). u < v)) \<and>
         (\<forall>n. n \<notin> set ps \<longrightarrow> map_of d' n = map_of csr_map n) \<and>
         (\<forall>n. n \<notin> set (dict_keys csr_map) \<longrightarrow>
            csr_map_update csr_map [n] = Inr (csr_map @ [(n, m + 1)]))))"
proof (intro conjI impI)
  assume "csr_map = []"
  then show "csr_map_update csr_map ps = Inl ValueError" by (simp add: csr_map_update_empty)
next
  assume ne: "csr_map \<noteq> []"
  then obtain d' where upd: "csr_map_update csr_map ps = Inr d'"
    using csr_map_update_nonempty by blast
  from csr_map_update_lookup[OF upd] obtain m where m: "py_max (dict_values csr_map) = Inr m"
    by blast
  have fresh: "\<exists>v. map_of d' n = Some v \<and> (\<forall>u\<in>set (dict_values csr_map). u < v)"
    if "n \<in> set ps" for n
  proof -
    from csr_map_update_fresh[OF upd that] m obtain v where v: "map_of d' n = Some v" "m < v"
      by auto
    have "u < v" if "u \<in> set (dict_values csr_map)" for u
      using py_max_ge[OF m that] v(2) by simp
    with v(1) show ?thesis by blast
  qed
  have kept: "map_of d' n = map_of csr_map n" if "n \<notin> set ps" for n
    using csr_map_update_kept[OF upd that] .
  have single: "csr_map_update csr_map [n] = Inr (csr_map @ [(n, m + 1)])"
    if "n \<notin> set (dict_keys csr_map)" for n
    using csr_map_update_single[OF m that] .
  from m upd fresh kept single
  show "\<exists>m d'. py_max (dict_values csr_map) = Inr m \<and> csr_map_update csr_map ps = Inr d' \<and>
         (\<forall>n\<in>set ps. \<exists>v. map_of d' n = Some v \<and> (\<forall>u\<in>set (dict_values csr_map). u < v)) \<and>
         (\<forall>n. n \<notin> set ps \<longrightarrow> map_of d' n = map_of csr_map n) \<and>
         (\<forall>n. n \<notin> set (dict_keys csr_map) \<longrightarrow>
            csr_map_update csr_map [n] = Inr (csr_map @ [(n, m + 1)]))"
    by blast
qed

theorem csr_map_update_ordinals_witness:
  "csr_map_update [(''a'', 0), (''b'', 1), (''c'', 2)] [''d'']
     = Inr [(''a'', 0), (''b'', 1), (''c'', 2), (''d'', 3)]"
proof -
  let ?base = "[(''a'', 0), (''b'', 1), (''c'', 2)] :: int dict"
  from csr_map_update_ordinals[of ?base "[''d'']"]
  obtain m where m: "py_max (dict_values ?base) = Inr m"
    and single: "\<forall>n. n \<notin> set (dict_keys ?base) \<longrightarrow>
            csr_map_update ?base [n] = Inr (?base @ [(n, m + 1)])"
    by auto
  from m have "m = 2" by (simp add: dict_values_def)
  moreover have "''d'' \<notin> set (dict_keys ?base)" by (simp add: dict_keys_def)
  ultimately show ?thesis using single by simp
qed

text \<open>
  The claim as stated fails where the namespace is empty: no ordinal is returned.
\<close>

theorem csr_map_update_empty_counterexample:
  "csr_map_update [] [''crg''] = Inl ValueError"
  by (simp add: csr_map_update_def dict_values_def)

text \<open>
  Claim C2, as amended. Allocation is not a lookup: a name of the list that the map
  already holds is given a new ordinal, above every ordinal of the map before the call
  and so different from the one it had. Only the names that are not in the list keep
  their ordinals.
\<close>

theorem csr_map_update_renumbers:
  assumes "csr_map_update csr_map ps = Inr d'"
  shows "(n \<notin> set ps \<longrightarrow> map_of d' n = map_of csr_map n) \<and>
         (n \<in> set ps \<longrightarrow>
            (\<exists>v. map_of d' n = Some v \<and> map_of csr_map n \<noteq> Some v \<and>
                 (\<forall>u\<in>set (dict_values csr_map). u < v)))"
proof (intro conjI impI)
  assume "n \<notin> set ps"
  then show "map_of d' n = map_of csr_map n" using csr_map_update_kept[OF assms] by simp
next
  assume n: "n \<in> set ps"
  from csr_map_update_fresh[OF assms n] obtain m v where
    m: "py_max (dict_values csr_map) = Inr m" and v: "map_of d' n = Some v" "m < v" by blast
  have lt: "u < v" if "u \<in> set (dict_values csr_map)" for u
    using py_max_ge[OF m that] v(2) by simp
  have "map_of csr_map n \<noteq> Some v"
  proof
    assume "map_of csr_map n = Some v"
    then have "v \<in> set (dict_values csr_map)"
      by (force dest: map_of_SomeD simp: dict_values_def)
    with lt show False by blast
  qed
  with v(1) lt show "\<exists>v. map_of d' n = Some v \<and> map_of csr_map n \<noteq> Some v \<and>
                 (\<forall>u\<in>set (dict_values csr_map). u < v)" by blast
qed

theorem csr_map_update_renumbers_witness:
  "csr_map_update [(''crg'', 0), (''uart'', 1)] [''crg''] = Inr [(''crg'', 2), (''uart'', 1)] \<and>
   map_of [(''crg'', 2), (''uart'', 1)] ''uart'' = map_of [(''crg'', 0), (''uart'', 1)] ''uart'' \<and>
   map_of [(''crg'', 2), (''uart'', 1)] ''crg'' \<noteq> map_of [(''crg'', 0), (''uart'', 1::int)] ''crg''"
proof -
  have e: "csr_map_update [(''crg'', 0), (''uart'', 1)] [''crg''] = Inr [(''crg'', 2), (''uart'', 1)]"
    by (simp add: dict_eval)
  from csr_map_update_renumbers[OF e, of "''uart''"] csr_map_update_renumbers[OF e, of "''crg''"] e
  show ?thesis by simp
qed

text \<open>
  The claim as stated fails when a name is allocated again: \<open>crg\<close> held 0 and is
  renumbered to 1.
\<close>

theorem csr_map_update_renumber_counterexample:
  "csr_map_update [(''crg'', 0)] [''crg''] = Inr [(''crg'', 1)]"
  by (simp add: dict_eval)

text \<open>
  Claim C3, as amended. The interrupt map and the memory map are the literal entry of
  \<open>ethmac\<close> updated with the parent's map, with no check of collisions: nothing is
  raised. Every entry of the parent's map is kept as it is; \<open>ethmac\<close> has the
  literal's value (3, or 0x30000000) unless the parent's map names \<open>ethmac\<close>, whose
  value then replaces the literal's.
\<close>

theorem interrupt_map_lookup:
  assumes "distinct (dict_keys base)"
  shows "map_of (interrupt_map base) n =
           (case map_of base n of Some v \<Rightarrow> Some v
            | None \<Rightarrow> if n = ''ethmac'' then Some 3 else None) \<and>
         map_of (mem_map base) n =
           (case map_of base n of Some v \<Rightarrow> Some v
            | None \<Rightarrow> if n = ''ethmac'' then Some 0x30000000 else None)"
  using assms map_of_literal_update[of base]
  by (simp add: interrupt_map_def mem_map_def dict_keys_def)

theorem interrupt_map_lookup_witness:
  "map_of (interrupt_map [(''uart'', 2), (''timer0'', 1)]) ''ethmac'' = Some 3 \<and>
   map_of (interrupt_map [(''uart'', 2), (''timer0'', 1)]) ''uart'' = Some 2 \<and>
   map_of (interrupt_map [(''ethmac'', 7)]) ''ethmac'' = Some 7"
proof -
  have "distinct (dict_keys [(''uart'', 2), (''timer0'', 1::int)])"
       "distinct (dict_keys [(''ethmac'', 7::int)])"
    by (simp_all add: dict_keys_def)
  from interrupt_map_lookup[OF this(1), of "''ethmac''"] interrupt_map_lookup[OF this(1), of "''uart''"]
    interrupt_map_lookup[OF this(2), of "''ethmac''"]
  show ?thesis by simp
qed

text \<open>
  The claim as stated fails when the parent's map holds interrupt 3 under another name:
  no error is raised and two names are on the same line.
\<close>

theorem interrupt_map_collision_counterexample:
  "interrupt_map [(''uart'', 3)] = [(''ethmac'', 3), (''uart'', 3)]"
  by (simp add: dict_eval)

text \<open>
  Claim C6, as amended. In the register-window kind every name of the list, whether its
  peripheral is enabled or not, is a key of the updated map, once; and when the map held
  distinct ordinals before the call it holds distinct ordinals after it. In the
  interrupt kind and in the memory kind the ordinals are distinct when those of the
  parent's map are and the literal's value (3, or 0x30000000) is not among them.
\<close>

theorem csr_map_update_unique_ordinals:
  assumes "csr_map_update csr_map ps = Inr d'"
    and "distinct (dict_keys csr_map)" and "distinct (dict_values csr_map)"
  shows "distinct (dict_keys d') \<and> distinct (dict_values d') \<and> set ps \<subseteq> set (dict_keys d') \<and>
         (3 \<notin> set (dict_values base) \<and> distinct (dict_keys base) \<and> distinct (dict_values base)
            \<longrightarrow> distinct (dict_values (interrupt_map base))) \<and>
         (0x30000000 \<notin> set (dict_values base) \<and> distinct (dict_keys base) \<and> distinct (dict_values base)
            \<longrightarrow> distinct (dict_values (mem_map base)))"
proof -
  have k: "distinct (map fst d')"
    using distinct_keys_csr_map_update[OF assms(1)] assms(2) by (simp add: dict_keys_def)
  have v: "distinct (map snd d')"
  proof (rule distinct_values_if_inj[OF k])
    fix k1 k2 v assume "map_of d' k1 = Some v" "map_of d' k2 = Some v"
    then show "k1 = k2"
      using csr_map_update_inj[OF assms(1)] assms(3) by (simp add: dict_values_def)
  qed
  have s: "n \<in> set (map fst d')" if "n \<in> set ps" for n
  proof -
    from csr_map_update_fresh[OF assms(1) that] obtain v where "map_of d' n = Some v" by blast
    then show ?thesis by (force dest: map_of_SomeD)
  qed
  from k v s literal_update_distinct_values[of base] show ?thesis
    by (auto simp: dict_keys_def dict_values_def interrupt_map_def mem_map_def)
qed

theorem csr_map_update_unique_ordinals_witness:
  "NeTV2SoC_csr_map [(''crg'', 0), (''uart'', 1), (''timer0'', 2)] =
     Inr [(''crg'', 3), (''uart'', 1), (''timer0'', 2), (''dna'', 4), (''xadc'', 5),
          (''flash'', 6), (''icap'', 7), (''ddrphy'', 8), (''ethphy'', 9), (''ethmac'', 10),
          (''pcie_phy'', 11), (''pcie_dma0'', 12), (''pcie_dma1'', 13), (''pcie_msi'', 14),
          (''hdmi_out0'', 15), (''hdmi_in0'', 16), (''hdmi_in0_freq'', 17),
          (''hdmi_in0_edid_mem'', 18)] \<and>
   distinct (dict_values
         [(''crg'', 3::int), (''uart'', 1), (''timer0'', 2), (''dna'', 4), (''xadc'', 5),
          (''flash'', 6), (''icap'', 7), (''ddrphy'', 8), (''ethphy'', 9), (''ethmac'', 10),
          (''pcie_phy'', 11), (''pcie_dma0'', 12), (''pcie_dma1'', 13), (''pcie_msi'', 14),
          (''hdmi_out0'', 15), (''hdmi_in0'', 16), (''hdmi_in0_freq'', 17),
          (''hdmi_in0_edid_mem'', 18)]) \<and>
   distinct (dict_values (interrupt_map [(''uart'', 2), (''timer0'', 1)]))"
proof -
  let ?base = "[(''crg'', 0), (''uart'', 1), (''timer0'', 2)] :: int dict"
  let ?irq = "[(''uart'', 2), (''timer0'', 1)] :: int dict"
  have e: "csr_map_update ?base csr_peripherals =
     Inr [(''crg'', 3), (''uart'', 1), (''timer0'', 2), (''dna'', 4), (''xadc'', 5),
          (''flash'', 6), (''icap'', 7), (''ddrphy'', 8), (''ethphy'', 9), (''ethmac'', 10),
          (''pcie_phy'', 11), (''pcie_dma0'', 12), (''pcie_dma1'', 13), (''pcie_msi'', 14),
          (''hdmi_out0'', 15), (''hdmi_in0'', 16), (''hdmi_in0_freq'', 17),
          (''hdmi_in0_edid_mem'', 18)]"
    by (simp add: dict_eval csr_peripherals_def)
  have b: "distinct (dict_keys ?base)" "distinct (dict_values ?base)"
    by (simp_all add: dict_keys_def dict_values_def)
  have i: "3 \<notin> set (dict_values ?irq) \<and> distinct (dict_keys ?irq) \<and> distinct (dict_values ?irq)"
    by (simp add: dict_keys_def dict_values_def)
  from csr_map_update_unique_ordinals[OF e b, of ?irq] e i show ?thesis
    by (simp add: NeTV2SoC_csr_map_def)
qed

text \<open>
  The claim as stated fails in the interrupt kind and in the memory kind, where a
  parent's entry can hold the literal's value.
\<close>

theorem shared_ordinal_counterexample:
  "\<not> distinct (dict_values (interrupt_map [(''timer0'', 3)])) \<and>
   \<not> distinct (dict_values (mem_map [(''main_ram'', 0x30000000)]))"
  by (simp add: dict_eval)

section \<open>Claims about the constructor\<close>

text \<open>
  Claim C5, at the input where the code departs from it. The constructor's first
  statement is meant to refuse PCIe together with the inter-board communication, but
  \<^verbatim>\<open>with_interboard_communication\<close> is no argument of the constructor and is assigned
  nowhere. With the name undefined, as the module is written, enabling PCIe alone
  raises \<open>NameError\<close> at the assertion, before anything is attached, and no
  combination of arguments ever raises the \<open>AssertionError\<close> of a violated constraint.
\<close>

theorem NeTV2SoC_init_assert_NameError:
  assumes "globals env ''with_interboard_communication'' = None"
  shows "(with_pcie f \<longrightarrow> NeTV2SoC_init env f = Inl (NameError, empty_soc)) \<and>
         (\<forall>s. NeTV2SoC_init env f \<noteq> Inl (AssertionError, s))"
proof (intro conjI impI allI)
  assume "with_pcie f"
  then show "NeTV2SoC_init env f = Inl (NameError, empty_soc)"
    using assms by (simp add: NeTV2SoC_init_def assert_not_pcie_and_interboard_def)
next
  fix s
  show "NeTV2SoC_init env f \<noteq> Inl (AssertionError, s)"
  proof (cases "with_pcie f")
    case True
    then have "NeTV2SoC_init env f = Inl (NameError, empty_soc)"
      using assms by (simp add: NeTV2SoC_init_def assert_not_pcie_and_interboard_def)
    then show ?thesis by simp
  next
    case False
    then show ?thesis by (rule NeTV2SoC_init_no_pcie_no_AssertionError)
  qed
qed

theorem NeTV2SoC_init_assert_NameError_witness:
  "NeTV2SoC_init
     \<lparr>globals = [''with_hdmi_in1'' \<mapsto> False, ''with_hdmi_out1'' \<mapsto> False],
      SoCSDRAM_mem_map = [], shadow_base = 0x80000000\<rparr>
     (default_flags\<lparr>with_pcie := True, with_ethernet := True\<rparr>)
   = Inl (NameError,
          \<lparr>submodules = [], wb_slaves = [], wb_masters = [], memory_regions = [],
           false_paths = [], period_constraints = [], constants = [], msi_irqs = []\<rparr>)"
  using NeTV2SoC_init_assert_NameError
    [of "\<lparr>globals = [''with_hdmi_in1'' \<mapsto> False, ''with_hdmi_out1'' \<mapsto> False],
          SoCSDRAM_mem_map = [], shadow_base = 0x80000000\<rparr>"
        "default_flags\<lparr>with_pcie := True, with_ethernet := True\<rparr>"]
  by (simp add: empty_soc_def)

text \<open>
  What the assertion is written for: were the name defined and true, the constructor
  would raise \<open>AssertionError\<close> with nothing attached. The module never defines it.
\<close>

lemma assert_raises_if_name_defined:
  assumes "with_pcie f" and "globals env ''with_interboard_communication'' = Some True"
  shows "NeTV2SoC_init env f = Inl (AssertionError, empty_soc)"
  using assms by (simp add: NeTV2SoC_init_def assert_not_pcie_and_interboard_def)




text \<open>
  The interrupt constants are numbered over the sorted items of the dictionary, so they
  do not depend on the order in which the dictionary is iterated: \<open>READER\<close> is 0 and
  \<open>WRITER\<close> is 1.
\<close>

lemma interrupt_constants_order_independent:
  assumes "mset items' = mset items" and "distinct (dict_keys items)"
  shows "add_interrupt_constants items' s = add_interrupt_constants items s"
  using sort_key_fst_perm[of items' items] assms
  by (simp add: add_interrupt_constants_def dict_keys_def)

lemma pcie_interrupt_constants:
  "add_interrupt_constants pcie_interrupts empty_soc
     = Inr (empty_soc\<lparr>constants := [(''PCIE_DMA0_READER_INTERRUPT'', 0),
                                      (''PCIE_DMA0_WRITER_INTERRUPT'', 1)],
                        msi_irqs := [(0, ''pcie_dma0.reader.irq''),
                                     (1, ''pcie_dma0.writer.irq'')]\<rparr>)"
  by (simp add: add_interrupt_constants_def pcie_interrupts_def empty_soc_def
      less_eq_char_def less_char_def)

section \<open>Claims about the collaborators modelled from the specification\<close>



text \<open>
  Claim C7. A region that shares an address with a region registered before it is
  refused with \<open>OverlapError\<close>; the regions at 0x1000 of size 0x1000 and at 0x1800 of
  size 0x100 share the address 0x1800.
\<close>

theorem allocate_region_overlap:
  assumes "r' \<in> set regs" and "a \<in> addresses r" and "a \<in> addresses r'"
  shows "allocate_region r regs = Inl OverlapError"
proof -
  have "regions_overlap r r'" using assms(2,3) by (auto simp: regions_overlap_iff)
  with assms(1) have "list_ex (regions_overlap r) regs" by (auto simp: list_ex_iff)
  then show ?thesis by (simp add: allocate_region_def)
qed

theorem allocate_region_overlap_witness:
  "allocate_region
     \<lparr>region_name = ''b'', base_address = 0x1800, region_size = 0x100, shadow_flag = False\<rparr>
     [\<lparr>region_name = ''a'', base_address = 0x1000, region_size = 0x1000, shadow_flag = False\<rparr>]
   = Inl OverlapError"
proof (rule allocate_region_overlap[where a = "0x1800"])
  show "\<lparr>region_name = ''a'', base_address = 0x1000, region_size = 0x1000, shadow_flag = False\<rparr>
        \<in> set [\<lparr>region_name = ''a'', base_address = 0x1000, region_size = 0x1000,
                  shadow_flag = False\<rparr>]"
    by simp
  show "0x1800 \<in> addresses
     \<lparr>region_name = ''b'', base_address = 0x1800, region_size = 0x100, shadow_flag = False\<rparr>"
    by (simp add: addresses_def)
  show "0x1800 \<in> addresses
     \<lparr>region_name = ''a'', base_address = 0x1000, region_size = 0x1000, shadow_flag = False\<rparr>"
    by (simp add: addresses_def)
qed

text \<open>
  Claim C8. Declaring a crossing a second time, in either order of the two domains,
  changes nothing; declared twice on an empty tracker, the pair is the one edge.
\<close>

theorem declare_crossing_idempotent:
  "declare_crossing a b (declare_crossing a b t) = declare_crossing a b t \<and>
   declare_crossing b a (declare_crossing a b t) = declare_crossing a b t \<and>
   edges (declare_crossing a b (declare_crossing a b {})) = {{a, b}} \<and>
   card (edges (declare_crossing a b (declare_crossing a b {}))) = 1"
  by (auto simp: declare_crossing_def edges_def)

theorem declare_crossing_idempotent_witness:
  "edges (declare_crossing ''sys'' ''eth'' (declare_crossing ''sys'' ''eth'' {}))
     = {{''sys'', ''eth''}} \<and>
   card (edges (declare_crossing ''sys'' ''eth'' (declare_crossing ''sys'' ''eth'' {}))) = 1"
proof -
  from declare_crossing_idempotent[of "''sys''" "''eth''" "{}"]
  have "edges (declare_crossing ''sys'' ''eth'' (declare_crossing ''sys'' ''eth'' {}))
          = {{''sys'', ''eth''}}"
    and "card (edges (declare_crossing ''sys'' ''eth'' (declare_crossing ''sys'' ''eth'' {}))) = 1"
    by blast+
  then show ?thesis by (rule conjI)
qed

text \<open>
  With Ethernet and Etherbone both enabled the constructor declares the crossing of
  \<open>sys\<close> and \<open>eth\<close> twice; the tracker holds it once.
\<close>

lemma constructor_declares_eth_twice:
  "\<exists>s. NeTV2SoC_init
          \<lparr>globals = [''with_hdmi_in1'' \<mapsto> False, ''with_hdmi_out1'' \<mapsto> False],
           SoCSDRAM_mem_map = [], shadow_base = 0x80000000\<rparr>
          (default_flags\<lparr>with_ethernet := True\<rparr>) = Inr s \<and>
        count_list (false_paths s) (''sys'', ''eth'') = 2 \<and>
        length (false_paths s) = 7 \<and>
        {''sys'', ''eth''} \<in> edges (declared_crossings s) \<and>
        card (edges (declared_crossings s)) = 6"
  by (simp add: NeTV2SoC_init_def step_defs default_flags_def empty_soc_def
      ethmac_bus_and_region_def mem_map_def dict_update_def declared_crossings_def
      declare_crossing_def edges_def doubleton_eq_iff)

end
